theory Spec2Isabelle
  imports Complex_Main "HOL-Library.Log_Nat"
begin

section \<open>The trading environment \<open>SimpleTradingEnv\<close>\<close>

text \<open>
  A shallow embedding of the class \<open>SimpleTradingEnv\<close> of the notebook
  \<open>Thesis_Code_Final_Version_Ferid_Kendic.ipynb\<close> (Step 5), its constructor, \<open>_get_obs\<close>,
  \<open>reset\<close> and \<open>step\<close>.

  Numbers. A finite double is the real number it denotes; a value that may also be an
  infinity or NaN is a \<open>pyfloat\<close>. The number of shares is a Python \<open>int\<close>, modelled as
  \<open>int\<close>; \<open>lookback\<close>, \<open>n_steps\<close> and \<open>current_step\<close> are natural numbers.

  What is computed as the doubles compute it: the two share counts of \<open>step\<close>,
  \<open>int(self.cash // price)\<close> and \<open>int(action * max_buy)\<close> (for a sale
  \<open>int(abs(action) * self.stock_owned)\<close>), with the rounding of the quotient and of the
  product, their overflow and the exceptions of \<open>int\<close>; and the cast of the observation to
  \<open>float32\<close>. These decide which branch runs, which exception is raised, how many shares are
  held and what the agent observes.

  What is idealised: the sums and products of money (the update of \<open>cash\<close>, the two
  portfolio values and the reward) are exact real arithmetic, with \<open>stock_owned\<close> and
  \<open>shares_traded\<close> entering them as exact integers: no rounding, no infinite value and no
  failed conversion of an \<open>int\<close> occur there.
\<close>

subsection \<open>Python values\<close>

datatype py_error = IndexError | ZeroDivisionError | OverflowError | ValueError

datatype pyfloat = Fin real | PInf | NInf | NaN

text \<open>\<open>int(x)\<close> on a finite float truncates towards zero.\<close>

definition py_int :: "real \<Rightarrow> int" where
  "py_int x = (if 0 \<le> x then \<lfloor>x\<rfloor> else \<lceil>x\<rceil>)"

text \<open>\<open>int(x)\<close> on any float: OverflowError on an infinity, ValueError on NaN.\<close>

fun py_int_of :: "pyfloat \<Rightarrow> py_error + int" where
  "py_int_of (Fin x) = Inr (py_int x)"
| "py_int_of PInf = Inl OverflowError"
| "py_int_of NInf = Inl OverflowError"
| "py_int_of NaN = Inl ValueError"

subsection \<open>Rounding to a binary floating-point format\<close>

text \<open>
  \<open>pow2 e\<close> is \<open>2\<^sup>e\<close> for an integer \<open>e\<close>; \<open>binade x\<close> is the integer \<open>e\<close> with
  \<open>2\<^sup>e \<le> |x| < 2\<^sup>e\<^sup>+\<^sup>1\<close> (for \<open>x \<noteq> 0\<close>), computed from the bit length of an integer.
\<close>

definition pow2 :: "int \<Rightarrow> real" where
  "pow2 e = (if 0 \<le> e then 2 ^ nat e else 1 / 2 ^ nat (- e))"

definition binade :: "real \<Rightarrow> int" where
  "binade x = (if 1 \<le> \<bar>x\<bar> then bitlen \<lfloor>\<bar>x\<bar>\<rfloor> - 1 else - bitlen (\<lceil>1 / \<bar>x\<bar>\<rceil> - 1))"

text \<open>Rounding to the nearest integer, a tie to the even one.\<close>

definition round_half_even :: "real \<Rightarrow> int" where
  "round_half_even r =
     (let f = \<lfloor>r\<rfloor>; d = r - real_of_int f
      in if d < 1 / 2 then f else if 1 / 2 < d then f + 1 else if even f then f else f + 1)"

text \<open>
  IEEE 754 round-to-nearest-even of a real number to the format with \<open>p\<close> bits of
  precision and exponents of normal numbers from \<open>emin\<close> to \<open>emax\<close>: below \<open>2\<^sup>e\<^sup>m\<^sup>i\<^sup>n\<close> the
  spacing is that of the subnormal numbers, and a result of magnitude \<open>2\<^sup>e\<^sup>m\<^sup>a\<^sup>x\<^sup>+\<^sup>1\<close> is an
  infinity. The sign of a zero is not kept.
\<close>

definition round_float :: "nat \<Rightarrow> int \<Rightarrow> int \<Rightarrow> real \<Rightarrow> pyfloat" where
  "round_float p emin emax x =
     (if x = 0 then Fin 0
      else
        let e = max (binade x) emin;
            ulp = pow2 (e - int p + 1);
            y = real_of_int (round_half_even (x / ulp)) * ulp
        in if pow2 (emax + 1) \<le> \<bar>y\<bar> then (if 0 < x then PInf else NInf) else Fin y)"

definition float64 :: "real \<Rightarrow> pyfloat" where
  "float64 x = round_float 53 (- 1022) 1023 x"

definition float32 :: "real \<Rightarrow> pyfloat" where
  "float32 x = round_float 24 (- 126) 127 x"

text \<open>\<open>astype(np.float32)\<close> on one element of a \<open>float64\<close> array.\<close>

fun astype_float32 :: "pyfloat \<Rightarrow> pyfloat" where
  "astype_float32 (Fin x) = float32 x"
| "astype_float32 PInf = PInf"
| "astype_float32 NInf = NInf"
| "astype_float32 NaN = NaN"

text \<open>
  The conversion of a Python \<open>int\<close> to a double when it meets a float in a product or in an
  array. Where Python raises OverflowError for an \<open>int\<close> beyond the doubles, the value here
  is an infinity; \<open>int\<close> of the product then raises the same OverflowError.
\<close>

definition float_of_int :: "int \<Rightarrow> pyfloat" where
  "float_of_int n = float64 (real_of_int n)"

subsection \<open>Float operations of \<open>step\<close>\<close>

text \<open>The comparisons \<open>a > 0\<close> and \<open>a < 0\<close>, false on NaN, and \<open>abs\<close>.\<close>

fun pf_pos :: "pyfloat \<Rightarrow> bool" where
  "pf_pos (Fin x) = (0 < x)"
| "pf_pos PInf = True"
| "pf_pos NInf = False"
| "pf_pos NaN = False"

fun pf_neg :: "pyfloat \<Rightarrow> bool" where
  "pf_neg (Fin x) = (x < 0)"
| "pf_neg PInf = False"
| "pf_neg NInf = True"
| "pf_neg NaN = False"

fun pf_abs :: "pyfloat \<Rightarrow> pyfloat" where
  "pf_abs (Fin x) = Fin \<bar>x\<bar>"
| "pf_abs PInf = PInf"
| "pf_abs NInf = PInf"
| "pf_abs NaN = NaN"

text \<open>The sign of a float that is not NaN, and the product of two doubles.\<close>

fun pf_sgn :: "pyfloat \<Rightarrow> int" where
  "pf_sgn (Fin x) = (if 0 < x then 1 else if x < 0 then - 1 else 0)"
| "pf_sgn PInf = 1"
| "pf_sgn NInf = - 1"
| "pf_sgn NaN = 0"

fun pf_mul :: "pyfloat \<Rightarrow> pyfloat \<Rightarrow> pyfloat" where
  "pf_mul (Fin x) (Fin y) = float64 (x * y)"
| "pf_mul NaN b = NaN"
| "pf_mul a NaN = NaN"
| "pf_mul a b =
     (if pf_sgn a * pf_sgn b > 0 then PInf else if pf_sgn a * pf_sgn b < 0 then NInf else NaN)"

text \<open>
  \<open>np.clip(a, lo, hi)\<close> is \<open>minimum(maximum(a, lo), hi)\<close>: the infinities are clipped to
  the bounds and NaN is propagated.
\<close>

fun np_clip :: "pyfloat \<Rightarrow> real \<Rightarrow> real \<Rightarrow> pyfloat" where
  "np_clip (Fin x) lo hi = Fin (min (max x lo) hi)"
| "np_clip PInf lo hi = Fin hi"
| "np_clip NInf lo hi = Fin (min lo hi)"
| "np_clip NaN lo hi = NaN"

text \<open>
  \<open>vx // wx\<close> on two finite doubles, as CPython computes it: \<open>mod = fmod(vx, wx)\<close>, which
  is exact; \<open>div = (vx - mod) / wx\<close>, each operation rounded; one is subtracted from \<open>div\<close>
  when \<open>mod\<close> is not zero and its sign differs from that of \<open>wx\<close>; the result is
  \<open>floor(div)\<close>, plus one when \<open>div - floor(div) > 0.5\<close>. A zero divisor raises
  ZeroDivisionError. A quotient beyond the doubles is an infinity.
\<close>

definition py_floordiv :: "real \<Rightarrow> real \<Rightarrow> py_error + pyfloat" where
  "py_floordiv vx wx =
     (if wx = 0 then Inl ZeroDivisionError
      else
        let md = vx - wx * real_of_int (py_int (vx / wx));
            dv = (case float64 (vx - md) of
                    Fin a \<Rightarrow> float64 (a / wx)
                  | PInf \<Rightarrow> (if 0 < wx then PInf else NInf)
                  | NInf \<Rightarrow> (if 0 < wx then NInf else PInf)
                  | NaN \<Rightarrow> NaN);
            dv1 = (if md \<noteq> 0 \<and> ((wx < 0) \<noteq> (md < 0))
                   then (case dv of Fin d \<Rightarrow> float64 (d - 1) | other \<Rightarrow> other)
                   else dv)
        in Inr (case dv1 of
                  Fin d \<Rightarrow>
                    (if d = 0 then Fin 0
                     else if 1 / 2 < d - real_of_int \<lfloor>d\<rfloor>
                          then float64 (real_of_int \<lfloor>d\<rfloor> + 1)
                          else Fin (real_of_int \<lfloor>d\<rfloor>))
                | other \<Rightarrow> other))"

text \<open>
  \<open>df.iloc[i]\<close> for a non-negative position \<open>i\<close>: IndexError outside the frame.
  \<open>df.iloc[a:b]\<close>: a slice never raises; a negative bound counts from the end and both
  bounds are clamped to the frame.
\<close>

definition iloc :: "'a list \<Rightarrow> nat \<Rightarrow> py_error + 'a" where
  "iloc xs i = (if i < length xs then Inr (xs ! i) else Inl IndexError)"

definition slice_bound :: "nat \<Rightarrow> int \<Rightarrow> nat" where
  "slice_bound n i = (if i < 0 then nat (max (i + int n) 0) else min (nat i) n)"

definition iloc_slice :: "'a list \<Rightarrow> int \<Rightarrow> int \<Rightarrow> 'a list" where
  "iloc_slice xs a b =
     (let s = slice_bound (length xs) a; t = slice_bound (length xs) b
      in take (t - s) (drop s xs))"

subsection \<open>Data\<close>

text \<open>One row of the data frame: the columns the environment reads, all doubles.\<close>

record bar =
  Open :: real
  High :: real
  Low :: real
  Close :: real
  SMA5 :: real
  SMA20 :: real

text \<open>
  The attributes of a \<open>SimpleTradingEnv\<close> object. \<open>action_space\<close> and
  \<open>observation_space\<close> are metadata for the learning library and are left out.
\<close>

record env =
  df :: "bar list"
  lookback :: nat
  n_steps :: nat
  current_step :: nat
  cash :: real
  stock_owned :: int
  initial_cash :: real
  state_size :: nat
  trade_penalty_factor :: real

text \<open>\<open>__init__(self, df, lookback)\<close>.\<close>

definition SimpleTradingEnv :: "bar list \<Rightarrow> nat \<Rightarrow> env" where
  "SimpleTradingEnv d lb =
     \<lparr> df = d, lookback = lb, n_steps = length d, current_step = lb,
       cash = 10000, stock_owned = 0, initial_cash = 10000,
       state_size = (4 + 2) * lb + 2, trade_penalty_factor = 1 / 100 \<rparr>"

subsection \<open>Observation\<close>

text \<open>
  \<open>_get_obs\<close>: the rows \<open>current_step - lookback\<close> up to \<open>current_step\<close> (exclusive);
  \<open>frame[[Open, High, Low, Close]].values.flatten()\<close> is row-major. \<open>np.concatenate\<close>
  makes one array of doubles, which converts the \<open>int\<close> \<open>stock_owned\<close> (to an infinity
  here when it is beyond the doubles); the result is cast to \<open>float32\<close> element by element.
\<close>

definition get_obs :: "env \<Rightarrow> pyfloat list" where
  "get_obs e =
     (let frame = iloc_slice (df e) (int (current_step e) - int (lookback e)) (int (current_step e));
          ohlc = concat (map (\<lambda>r. [Open r, High r, Low r, Close r]) frame);
          sma5 = map SMA5 frame;
          sma20 = map SMA20 frame;
          obs = map Fin ohlc @ map Fin sma5 @ map Fin sma20 @ [Fin (cash e)]
                @ [float_of_int (stock_owned e)]
      in map astype_float32 obs)"

subsection \<open>reset\<close>

definition reset :: "env \<Rightarrow> pyfloat list \<times> env" where
  "reset e =
     (let e1 = e\<lparr>current_step := lookback e\<rparr>;
          e2 = e1\<lparr>cash := initial_cash e1\<rparr>;
          e3 = e2\<lparr>stock_owned := 0\<rparr>
      in (get_obs e3, e3))"

subsection \<open>step\<close>

text \<open>The local constant \<open>min_trade_amount = 1\<close> of \<open>step\<close>.\<close>

definition min_trade_amount :: int where
  "min_trade_amount = 1"

text \<open>
  The two share counts. \<open>max_buy = int(self.cash // price)\<close>; the count of a purchase is
  \<open>int(action * max_buy)\<close> and that of a sale \<open>int(abs(action) * self.stock_owned)\<close>, both
  \<open>int\<close> of the product of a double and an \<open>int\<close>.
\<close>

definition max_buy_of :: "real \<Rightarrow> real \<Rightarrow> py_error + int" where
  "max_buy_of c p = (case py_floordiv c p of Inl err \<Rightarrow> Inl err | Inr q \<Rightarrow> py_int_of q)"

definition shares_of :: "pyfloat \<Rightarrow> int \<Rightarrow> py_error + int" where
  "shares_of a n = py_int_of (pf_mul a (float_of_int n))"

text \<open>
  The buy and sell branches of \<open>step\<close>, on the clipped action. The result is the
  environment after the trade and \<open>shares_traded\<close>. On NaN both comparisons \<open>action > 0\<close>
  and \<open>action < 0\<close> are false.
\<close>

definition trade :: "env \<Rightarrow> real \<Rightarrow> pyfloat \<Rightarrow> py_error + env \<times> int" where
  "trade e p act =
     (if pf_pos act then
        (case max_buy_of (cash e) p of
           Inl err \<Rightarrow> Inl err
         | Inr max_buy \<Rightarrow>
             (case shares_of act max_buy of
                Inl err \<Rightarrow> Inl err
              | Inr shares_bought \<Rightarrow>
                  (if shares_bought \<ge> min_trade_amount
                   then Inr (e\<lparr>cash := cash e - real_of_int shares_bought * p,
                               stock_owned := stock_owned e + shares_bought\<rparr>, shares_bought)
                   else Inr (e, 0))))
      else if pf_neg act then
        (case shares_of (pf_abs act) (stock_owned e) of
           Inl err \<Rightarrow> Inl err
         | Inr shares_sold \<Rightarrow>
             (if shares_sold \<ge> min_trade_amount
              then Inr (e\<lparr>cash := cash e + real_of_int shares_sold * p,
                          stock_owned := stock_owned e - shares_sold\<rparr>, shares_sold)
              else Inr (e, 0)))
      else Inr (e, 0))"

text \<open>
  The local variables of one call of \<open>step\<close> that returns. The flag \<open>done\<close> of the
  source is the field \<open>is_done\<close>.
\<close>

record step_locals =
  price :: real
  prev_total_asset :: real
  action :: pyfloat
  shares_traded :: int
  is_done :: bool
  next_obs :: "pyfloat list"
  next_price :: real
  new_total_asset :: real
  reward :: real

text \<open>
  \<open>step\<close>, statement by statement. The result is the outcome (an exception or the locals)
  and the object as the call leaves it: the read of the current row and the share counts,
  which can raise, come before any update; the read of the next bar comes after them.
\<close>

definition step_detail :: "env \<Rightarrow> pyfloat \<Rightarrow> (py_error + step_locals) \<times> env" where
  "step_detail e a =
     (case iloc (df e) (current_step e) of
        Inl err \<Rightarrow> (Inl err, e)
      | Inr row \<Rightarrow>
          (let p = Close row;
               prev = cash e + real_of_int (stock_owned e) * p;
               act = np_clip a (- 1) 1
           in (case trade e p act of
                 Inl err \<Rightarrow> (Inl err, e)
               | Inr (e1, traded) \<Rightarrow>
                   (let e2 = e1\<lparr>current_step := current_step e1 + 1\<rparr>;
                        d = (int (current_step e2) \<ge> int (n_steps e2) - 1);
                        obs = get_obs e2
                    in (case (if \<not> d then map_sum id Close (iloc (df e2) (current_step e2))
                              else Inr p) of
                          Inl err \<Rightarrow> (Inl err, e2)
                        | Inr np \<Rightarrow>
                            (let new = cash e2 + real_of_int (stock_owned e2) * np;
                                 r = new - prev - trade_penalty_factor e2 * real_of_int traded
                             in (Inr \<lparr> price = p, prev_total_asset = prev, action = act,
                                       shares_traded = traded, is_done = d, next_obs = obs,
                                       next_price = np, new_total_asset = new, reward = r \<rparr>,
                                 e2)))))))"

text \<open>What \<open>step\<close> returns: \<open>(next_obs, reward, done)\<close> (the info dictionary is empty).\<close>

definition step :: "env \<Rightarrow> pyfloat \<Rightarrow> (py_error + pyfloat list \<times> real \<times> bool) \<times> env" where
  "step e a =
     (case step_detail e a of
        (Inl err, e') \<Rightarrow> (Inl err, e')
      | (Inr l, e') \<Rightarrow> (Inr (next_obs l, reward l, is_done l), e'))"

text \<open>A caller that calls \<open>step\<close> once for each action of a list, whatever it returns.\<close>

fun run :: "env \<Rightarrow> pyfloat list \<Rightarrow> (py_error + pyfloat list \<times> real \<times> bool) list \<times> env" where
  "run e [] = ([], e)"
| "run e (a # as) =
     (case step e a of (r, e1) \<Rightarrow> (case run e1 as of (rs, e2) \<Rightarrow> (r # rs, e2)))"

subsection \<open>The observation in the words of the specification\<close>



subsection \<open>Sample data\<close>

text \<open>
  A frame of four bars with closes 100, 100, 110 and 120, and the environment built on it
  with \<open>lookback = 1\<close>, after \<open>reset\<close>. They serve as concrete inputs below.
\<close>

definition ex_bar :: "real \<Rightarrow> bar" where
  "ex_bar c = \<lparr> Open = c, High = c + 2, Low = c - 2, Close = c + 1, SMA5 = c - 1, SMA20 = c - 3 \<rparr>"

definition ex_df :: "bar list" where
  "ex_df = [ex_bar 99, ex_bar 99, ex_bar 109, ex_bar 119]"

definition ex_env :: env where
  "ex_env = snd (reset (SimpleTradingEnv ex_df 1))"

text \<open>The environment after the call \<open>step([1.0])\<close> on \<open>ex_env\<close>: 100 shares bought at 100.\<close>

definition ex_env1 :: env where
  "ex_env1 = \<lparr> df = ex_df, lookback = 1, n_steps = 4, current_step = 2, cash = 0,
               stock_owned = 100, initial_cash = 10000, state_size = 8,
               trade_penalty_factor = 1 / 100 \<rparr>"

text \<open>The locals of that first call.\<close>

definition ex_locals1 :: step_locals where
  "ex_locals1 = \<lparr> price = 100, prev_total_asset = 10000, action = Fin 1,
                  shares_traded = 100, is_done = False,
                  next_obs = map Fin [99, 101, 97, 100, 98, 96, 0, 100],
                  next_price = 110, new_total_asset = 11000, reward = 999 \<rparr>"

text \<open>
  The environment after the next call, \<open>step([-1.0])\<close> on \<open>ex_env1\<close>, and the locals of
  that call: the 100 shares are sold at 110 and the cursor reaches the last bar.
\<close>

definition ex_env2 :: env where
  "ex_env2 = \<lparr> df = ex_df, lookback = 1, n_steps = 4, current_step = 3, cash = 11000,
               stock_owned = 0, initial_cash = 10000, state_size = 8,
               trade_penalty_factor = 1 / 100 \<rparr>"

definition ex_locals2 :: step_locals where
  "ex_locals2 = \<lparr> price = 110, prev_total_asset = 11000, action = Fin (- 1),
                  shares_traded = 100, is_done = True,
                  next_obs = map Fin [109, 111, 107, 110, 108, 106, 11000, 0],
                  next_price = 110, new_total_asset = 11000, reward = - 1 \<rparr>"

text \<open>
  A bar whose six columns are all \<open>c\<close>, the frame of four such bars, and the environment
  built on it with \<open>lookback = 1\<close>, after \<open>reset\<close>. Two closes that are positive doubles:
  \<open>tiny_close\<close>, at which \<open>10000 // price\<close> is beyond the doubles, and \<open>odd_close\<close>, at
  which the rounded quotient is above the exact one.
\<close>

definition flat_bar :: "real \<Rightarrow> bar" where
  "flat_bar c = \<lparr> Open = c, High = c, Low = c, Close = c, SMA5 = c, SMA20 = c \<rparr>"

definition flat_df :: "real \<Rightarrow> bar list" where
  "flat_df c = [flat_bar c, flat_bar c, flat_bar c, flat_bar c]"

definition flat_env :: "real \<Rightarrow> env" where
  "flat_env c = snd (reset (SimpleTradingEnv (flat_df c) 1))"

definition tiny_close :: real where
  "tiny_close = 1 / 2 ^ 1020"

definition odd_close :: real where
  "odd_close = 145 / 2 ^ 60"

text \<open>The double written \<open>0.3333333333333333\<close>.\<close>

definition third_double :: real where
  "third_double = 6004799503160661 / 2 ^ 54"

lemmas ex_simps = ex_env_def ex_df_def ex_bar_def SimpleTradingEnv_def reset_def get_obs_def
  iloc_slice_def slice_bound_def step_def step_detail_def iloc_def Let_def py_int_def
  min_trade_amount_def trade_def max_buy_of_def shares_of_def py_floordiv_def

lemmas size_simps = max_buy_of_def shares_of_def py_floordiv_def py_int_def

lemmas flat_simps = flat_env_def flat_df_def flat_bar_def SimpleTradingEnv_def reset_def
  get_obs_def iloc_slice_def slice_bound_def Let_def

section \<open>Properties\<close>

subsection \<open>Rounding\<close>

lemma pow2_pos [simp]: "0 < pow2 e"
  by (simp add: pow2_def)

lemma pow2_nat: "pow2 (int k) = 2 ^ k"
  by (simp add: pow2_def)

lemma pow2_neg_nat: "pow2 (- int k) = 1 / 2 ^ k"
  by (cases k) (simp_all add: pow2_def nat_add_distrib)

lemma round_half_even_of_int [simp]: "round_half_even (real_of_int n) = n"
  by (simp add: round_half_even_def)

lemma bitlen_eqI:
  assumes "2 ^ k \<le> n" "n < 2 ^ Suc k"
  shows "bitlen n = int k + 1"
proof (rule antisym)
  show "bitlen n \<le> int k + 1"
    using assms(2) by (simp add: bitlen_le_iff_power nat_add_distrib)
  show "int k + 1 \<le> bitlen n"
    using assms(1) by (simp add: bitlen_ge_iff_power nat_add_distrib)
qed

lemma binade_ge_one:
  assumes "2 ^ k \<le> \<bar>x\<bar>" "\<bar>x\<bar> < 2 ^ Suc k"
  shows "binade x = int k"
proof -
  have one: "1 \<le> \<bar>x\<bar>"
    using assms(1) one_le_power [of "2::real" k] by linarith
  have lo: "(2::int) ^ k \<le> \<lfloor>\<bar>x\<bar>\<rfloor>"
    using assms(1) by (simp add: le_floor_iff)
  have hi: "\<lfloor>\<bar>x\<bar>\<rfloor> < (2::int) ^ Suc k"
    using assms(2) by (simp add: floor_less_iff)
  from bitlen_eqI [OF lo hi] one show ?thesis by (simp add: binade_def)
qed

lemma binade_lt_one:
  assumes "1 / 2 ^ Suc k \<le> \<bar>x\<bar>" "\<bar>x\<bar> < 1 / 2 ^ k"
  shows "binade x = - int (Suc k)"
proof -
  have pos: "0 < \<bar>x\<bar>"
    using assms(1) by (smt (verit) divide_pos_pos zero_less_power)
  have lt1: "\<bar>x\<bar> < 1"
    using assms(2) one_le_power [of "2::real" k] by (smt (verit) divide_le_eq_1_pos)
  let ?r = "1 / \<bar>x\<bar>"
  have r_le: "?r \<le> 2 ^ Suc k"
    using assms(1) pos by (simp add: field_simps)
  have r_gt: "2 ^ k < ?r"
    using assms(2) pos by (simp add: field_simps)
  have c_le: "\<lceil>?r\<rceil> \<le> 2 ^ Suc k"
    using r_le by (simp add: ceiling_le_iff)
  have c_gt: "(2::int) ^ k < \<lceil>?r\<rceil>"
    using r_gt by (simp add: less_ceiling_iff)
  have "bitlen (\<lceil>?r\<rceil> - 1) = int k + 1"
    using c_le c_gt by (intro bitlen_eqI) simp_all
  with lt1 show ?thesis by (simp add: binade_def)
qed

lemma binade_eqI:
  assumes "pow2 e \<le> \<bar>x\<bar>" "\<bar>x\<bar> < pow2 (e + 1)"
  shows "binade x = e"
proof (cases "0 \<le> e")
  case True
  then obtain k where k: "e = int k" using nonneg_int_cases by blast
  have "pow2 (e + 1) = 2 ^ Suc k" using k pow2_nat [of "Suc k"] by (simp add: add.commute)
  with assms k show ?thesis by (simp add: binade_ge_one pow2_nat)
next
  case False
  then have "e = - int (Suc (nat (- e - 1)))" by simp
  then obtain k where k: "e = - int (Suc k)" ..
  have "pow2 (e + 1) = 1 / 2 ^ k" using k pow2_neg_nat [of k] by simp
  moreover have "pow2 e = 1 / 2 ^ Suc k" using k pow2_neg_nat [of "Suc k"] by simp
  ultimately show ?thesis using assms k by (simp add: binade_lt_one)
qed


lemma round_float_eval:
  assumes "pow2 e0 \<le> \<bar>x\<bar>" "\<bar>x\<bar> < pow2 (e0 + 1)"
  shows "round_float p emin emax x =
     (let e = max e0 emin;
          ulp = pow2 (e - int p + 1);
          y = real_of_int (round_half_even (x / ulp)) * ulp
      in if pow2 (emax + 1) \<le> \<bar>y\<bar> then (if 0 < x then PInf else NInf) else Fin y)"
proof -
  have "0 < \<bar>x\<bar>" using assms(1) pow2_pos [of e0] by linarith
  then have "x \<noteq> 0" by simp
  moreover have "binade x = e0" using assms by (rule binade_eqI)
  ultimately show ?thesis by (simp add: round_float_def)
qed

lemma round_float_int:
  assumes p: "0 < p" and emin: "emin \<le> 0" and emax: "int p \<le> emax + 1"
    and n: "\<bar>n\<bar> < 2 ^ p"
  shows "round_float p emin emax (real_of_int n) = Fin (real_of_int n)"
proof (cases "n = 0")
  case True
  then show ?thesis by (simp add: round_float_def)
next
  case False
  let ?a = "\<bar>n\<bar>"
  have apos: "0 < ?a" using False by simp
  define k where "k = nat (bitlen ?a - 1)"
  from bitlen_bounds [OF apos] have b1: "2 ^ k \<le> ?a" and b2: "?a < 2 ^ nat (bitlen ?a)"
    by (simp_all add: k_def)
  have bl: "1 \<le> bitlen ?a"
    using apos bitlen_eq_zero_iff [of ?a] bitlen_nonneg [of ?a] by linarith
  then have sk: "nat (bitlen ?a) = Suc k" by (simp add: k_def)
  have kp: "k < p"
  proof -
    have "(2::int) ^ k < 2 ^ p" using b1 n by linarith
    then show ?thesis by simp
  qed
  have lo: "pow2 (int k) \<le> \<bar>real_of_int n\<bar>"
  proof -
    have "real_of_int (2 ^ k) \<le> real_of_int ?a" using b1 by (simp only: of_int_le_iff)
    then show ?thesis by (simp add: pow2_nat)
  qed
  have hi: "\<bar>real_of_int n\<bar> < pow2 (int k + 1)"
  proof -
    have "real_of_int ?a < real_of_int (2 ^ Suc k)" using b2 sk by (simp only: of_int_less_iff)
    moreover have "pow2 (int k + 1) = 2 ^ Suc k" using pow2_nat [of "Suc k"] by (simp add: add.commute)
    ultimately show ?thesis by simp
  qed
  have e: "max (int k) emin = int k" using emin by simp
  define j where "j = p - 1 - k"
  have ulp: "pow2 (int k - int p + 1) = 1 / 2 ^ j"
  proof -
    have "int k - int p + 1 = - int j" using kp by (simp add: j_def)
    then show ?thesis by (simp add: pow2_neg_nat)
  qed
  have q: "real_of_int n / (1 / 2 ^ j) = real_of_int (n * 2 ^ j)" by simp
  have y: "real_of_int (round_half_even (real_of_int n / (1 / 2 ^ j))) * (1 / 2 ^ j) = real_of_int n"
    unfolding q round_half_even_of_int by simp
  have small: "\<not> pow2 (emax + 1) \<le> \<bar>real_of_int n\<bar>"
  proof -
    have "real_of_int ?a < real_of_int (2 ^ p)" using n by (simp only: of_int_less_iff)
    then have "\<bar>real_of_int n\<bar> < 2 ^ p" by simp
    also have "(2::real) ^ p = pow2 (int p)" by (simp add: pow2_nat)
    also have "\<dots> \<le> pow2 (emax + 1)"
    proof -
      obtain m where m: "emax + 1 = int m" using emax nonneg_int_cases [of "emax + 1"] by auto
      with emax have "p \<le> m" by simp
      then show ?thesis unfolding m pow2_nat by simp
    qed
    finally show ?thesis by simp
  qed
  show ?thesis
    unfolding round_float_eval [OF lo hi] Let_def e ulp y using small by simp
qed

lemma float64_int [simp]:
  assumes "x \<in> \<int>" "\<bar>x\<bar> < 9007199254740992"
  shows "float64 x = Fin x"
proof -
  from assms(1) obtain n where x: "x = real_of_int n" by (auto elim: Ints_cases)
  with assms(2) have "\<bar>n\<bar> < 2 ^ 53" by simp
  then show ?thesis unfolding x float64_def by (intro round_float_int) simp_all
qed

lemma float32_int [simp]:
  assumes "x \<in> \<int>" "\<bar>x\<bar> < 16777216"
  shows "float32 x = Fin x"
proof -
  from assms(1) obtain n where x: "x = real_of_int n" by (auto elim: Ints_cases)
  with assms(2) have "\<bar>n\<bar> < 2 ^ 24" by simp
  then show ?thesis unfolding x float32_def by (intro round_float_int) simp_all
qed

lemma float_of_int_small [simp]: "\<bar>n\<bar> < 9007199254740992 \<Longrightarrow> float_of_int n = Fin (real_of_int n)"
  by (simp add: float_of_int_def)

subsection \<open>Rounding at the sample closes\<close>

lemma float64_tiny_quotient: "float64 (10000 / tiny_close) = PInf"
proof -
  have b: "pow2 1033 \<le> \<bar>10000 / tiny_close\<bar>" "\<bar>10000 / tiny_close\<bar> < pow2 (1033 + 1)"
    by (simp_all add: pow2_def tiny_close_def)
  show ?thesis
    unfolding float64_def round_float_eval [OF b]
    by (simp add: pow2_def round_half_even_def Let_def tiny_close_def)
qed

lemma max_buy_of_tiny: "max_buy_of 10000 tiny_close = Inl OverflowError"
proof -
  have nz: "tiny_close \<noteq> 0" by (simp add: tiny_close_def)
  have q: "10000 / tiny_close = real_of_int (10000 * 2 ^ 1020)" by (simp add: tiny_close_def)
  have md: "10000 - tiny_close * real_of_int (py_int (10000 / tiny_close)) = 0"
    unfolding q py_int_def by (simp add: tiny_close_def)
  show ?thesis
    unfolding max_buy_of_def py_floordiv_def Let_def md
    using nz by (simp add: float64_tiny_quotient)
qed

lemma float32_tiny: "float32 tiny_close = Fin 0"
proof -
  have b: "pow2 (- 1020) \<le> \<bar>tiny_close\<bar>" "\<bar>tiny_close\<bar> < pow2 (- 1020 + 1)"
    by (simp_all add: pow2_def tiny_close_def)
  show ?thesis
    unfolding float32_def round_float_eval [OF b]
    by (simp add: pow2_def round_half_even_def Let_def tiny_close_def)
qed

lemma float64_odd_quotient: "float64 (10000 / odd_close) = Fin 79511827903920488448"
proof -
  have b: "pow2 66 \<le> \<bar>10000 / odd_close\<bar>" "\<bar>10000 / odd_close\<bar> < pow2 (66 + 1)"
    by (simp_all add: pow2_def odd_close_def)
  show ?thesis
    unfolding float64_def round_float_eval [OF b]
    by (simp add: pow2_def round_half_even_def Let_def odd_close_def)
qed

lemma floor_odd_quotient: "\<lfloor>10000 / odd_close\<rfloor> = 79511827903920481103"
  by (simp add: odd_close_def)

lemma float64_odd_difference: "float64 (10000 - 65 / 2 ^ 60) = Fin 10000"
proof -
  have b: "pow2 13 \<le> \<bar>10000 - 65 / 2 ^ 60 :: real\<bar>" "\<bar>10000 - 65 / 2 ^ 60 :: real\<bar> < pow2 (13 + 1)"
    by (simp_all add: pow2_def)
  show ?thesis
    unfolding float64_def round_float_eval [OF b]
    by (simp add: pow2_def round_half_even_def Let_def)
qed

lemma max_buy_of_odd: "max_buy_of 10000 odd_close = Inr 79511827903920488448"
proof -
  have nz: "odd_close \<noteq> 0" by (simp add: odd_close_def)
  have md: "10000 - odd_close * real_of_int (py_int (10000 / odd_close)) = 65 / 2 ^ 60"
    unfolding py_int_def by (simp add: floor_odd_quotient) (simp add: odd_close_def)
  have pos: "0 < odd_close" by (simp add: odd_close_def)
  show ?thesis
    unfolding max_buy_of_def py_floordiv_def Let_def md float64_odd_difference
    using nz pos by (simp add: float64_odd_quotient py_int_def)
qed

lemma float64_big_int: "float64 79511827903920488448 = Fin 79511827903920488448"
proof -
  have b: "pow2 66 \<le> \<bar>79511827903920488448 :: real\<bar>" "\<bar>79511827903920488448 :: real\<bar> < pow2 (66 + 1)"
    by (simp_all add: pow2_def)
  show ?thesis
    unfolding float64_def round_float_eval [OF b]
    by (simp add: pow2_def round_half_even_def Let_def)
qed

lemma shares_of_odd: "shares_of (Fin 1) 79511827903920488448 = Inr 79511827903920488448"
  by (simp add: shares_of_def float_of_int_def float64_big_int py_int_def)

lemma float64_third_product: "float64 (third_double * 3) = Fin 1"
proof -
  have b: "pow2 (- 1) \<le> \<bar>third_double * 3\<bar>" "\<bar>third_double * 3\<bar> < pow2 (- 1 + 1)"
    by (simp_all add: pow2_def third_double_def)
  show ?thesis
    unfolding float64_def round_float_eval [OF b]
    by (simp add: pow2_def round_half_even_def Let_def third_double_def)
qed


lemma third_double_clip [simp]:
  "0 < third_double" "max third_double (- 1) = third_double" "min third_double 1 = third_double"
  by (simp_all add: third_double_def)

lemma shares_of_third: "shares_of (Fin third_double) 3 = Inr 1"
  by (simp add: shares_of_def float64_third_product py_int_def)

lemma flat_env_eq:
  "flat_env c = \<lparr> df = [flat_bar c, flat_bar c, flat_bar c, flat_bar c], lookback = 1,
      n_steps = 4, current_step = 1, cash = 10000, stock_owned = 0, initial_cash = 10000,
      state_size = 8, trade_penalty_factor = 1 / 100 \<rparr>"
  by (simp add: flat_simps)

subsection \<open>Clipping\<close>

lemma np_clip_cases:
  "np_clip a (- 1) 1 = NaN \<or> (\<exists>x. np_clip a (- 1) 1 = Fin x \<and> - 1 \<le> x \<and> x \<le> 1)"
  by (cases a) auto

lemma np_clip_idem: "np_clip (np_clip a (- 1) 1) (- 1) 1 = np_clip a (- 1) 1"
  by (cases a) auto

subsection \<open>The trade\<close>

lemma trade_frame:
  assumes "trade e p act = Inr (e1, t)"
  shows "df e1 = df e" "lookback e1 = lookback e" "n_steps e1 = n_steps e"
    "current_step e1 = current_step e" "initial_cash e1 = initial_cash e"
    "state_size e1 = state_size e" "trade_penalty_factor e1 = trade_penalty_factor e"
  using assms by (auto simp: trade_def split: if_splits sum.splits)

lemma trade_traded:
  assumes "trade e p act = Inr (e1, t)"
  shows "t = \<bar>stock_owned e1 - stock_owned e\<bar>"
    and "cash e1 + real_of_int (stock_owned e1) * p = cash e + real_of_int (stock_owned e) * p"
  using assms
  by (auto simp: trade_def min_trade_amount_def algebra_simps split: if_splits sum.splits)

lemma trade_NaN [simp]: "trade e p NaN = Inr (e, 0)"
  by (simp add: trade_def)

subsection \<open>One call of step\<close>

text \<open>What a call of \<open>step\<close> that returns has done, local by local.\<close>

lemma step_detail_Inr:
  assumes "step_detail e a = (Inr l, e')"
  shows "\<exists>e1. current_step e < length (df e)
    \<and> trade e (Close (df e ! current_step e)) (np_clip a (- 1) 1) = Inr (e1, shares_traded l)
    \<and> e' = e1\<lparr>current_step := current_step e + 1\<rparr>
    \<and> price l = Close (df e ! current_step e)
    \<and> prev_total_asset l = cash e + real_of_int (stock_owned e) * price l
    \<and> action l = np_clip a (- 1) 1
    \<and> is_done l = (int (current_step e + 1) \<ge> int (n_steps e) - 1)
    \<and> next_obs l = get_obs e'
    \<and> (\<not> is_done l \<longrightarrow> current_step e + 1 < length (df e))
    \<and> next_price l = (if is_done l then price l else Close (df e ! (current_step e + 1)))
    \<and> new_total_asset l = cash e' + real_of_int (stock_owned e') * next_price l
    \<and> reward l = new_total_asset l - prev_total_asset l
                  - trade_penalty_factor e * real_of_int (shares_traded l)"
proof -
  from assms have cs: "current_step e < length (df e)"
    by (auto simp: step_detail_def iloc_def split: if_splits)
  let ?p = "Close (df e ! current_step e)"
  from assms cs obtain e1 t where tr: "trade e ?p (np_clip a (- 1) 1) = Inr (e1, t)"
    by (auto simp: step_detail_def iloc_def Let_def split: sum.splits)
  note fr = trade_frame [OF tr]
  from assms cs tr fr show ?thesis
    by (auto simp: step_detail_def iloc_def Let_def split: sum.splits if_splits)
qed

lemma step_Inr:
  assumes "step e a = (Inr (obs, r, d), e')"
  shows "\<exists>l. step_detail e a = (Inr l, e') \<and> obs = next_obs l \<and> r = reward l \<and> d = is_done l"
  using assms by (auto simp: step_def split: prod.splits sum.splits)

lemma snd_reset:
  "snd (reset e) = e\<lparr>current_step := lookback e, cash := initial_cash e, stock_owned := 0\<rparr>"
  by (simp add: reset_def Let_def)

lemma snd_step: "snd (step e a) = snd (step_detail e a)"
  by (simp add: step_def split: prod.splits sum.splits)

lemma step_detail_state:
  "snd (step_detail e a) = e
   \<or> (\<exists>e1 t. current_step e < length (df e)
         \<and> trade e (Close (df e ! current_step e)) (np_clip a (- 1) 1) = Inr (e1, t)
         \<and> snd (step_detail e a) = e1\<lparr>current_step := current_step e + 1\<rparr>)"
proof (cases "current_step e < length (df e)")
  case False
  then show ?thesis by (simp add: step_detail_def iloc_def)
next
  case True
  show ?thesis
  proof (cases "trade e (Close (df e ! current_step e)) (np_clip a (- 1) 1)")
    case (Inl err)
    with True show ?thesis by (simp add: step_detail_def iloc_def)
  next
    case (Inr r)
    obtain e1 t where r: "r = (e1, t)" by (cases r)
    from trade_frame(4) [OF Inr [unfolded r]] True Inr r show ?thesis
      by (auto simp: step_detail_def iloc_def Let_def split: sum.splits)
  qed
qed

lemma step_frame:
  "df (snd (step e a)) = df e" "lookback (snd (step e a)) = lookback e"
  "n_steps (snd (step e a)) = n_steps e" "initial_cash (snd (step e a)) = initial_cash e"
  "state_size (snd (step e a)) = state_size e"
  "trade_penalty_factor (snd (step e a)) = trade_penalty_factor e"
  using step_detail_state [of e a] by (auto simp: snd_step dest: trade_frame)

lemma run_frame:
  "df (snd (run e as)) = df e" "lookback (snd (run e as)) = lookback e"
  "n_steps (snd (run e as)) = n_steps e" "initial_cash (snd (run e as)) = initial_cash e"
  "state_size (snd (run e as)) = state_size e"
  "trade_penalty_factor (snd (run e as)) = trade_penalty_factor e"
  by (induction as arbitrary: e; simp add: step_frame split: prod.splits;
      metis step_frame snd_conv)+






lemma step_detail_returns:
  assumes wf: "n_steps e = length (df e)"
    and cs: "current_step e < length (df e)"
    and tr: "trade e (Close (df e ! current_step e)) (np_clip a (- 1) 1) = Inr (e1, t)"
  shows "\<exists>l. step_detail e a = (Inr l, e1\<lparr>current_step := current_step e + 1\<rparr>)
    \<and> shares_traded l = t
    \<and> is_done l = (int (current_step e + 1) \<ge> int (n_steps e) - 1)"
proof -
  note fr = trade_frame [OF tr]
  from wf cs tr fr show ?thesis
    by (auto simp: step_detail_def iloc_def Let_def)
qed

lemma step_returns_cursor:
  assumes "step e a = (Inr v, e')"
  shows "current_step e' = current_step e + 1" "current_step e < length (df e)"
proof -
  obtain obs r d where v: "v = (obs, r, d)" by (cases v)
  from step_Inr [OF assms [unfolded v]] obtain l where l: "step_detail e a = (Inr l, e')" by blast
  from step_detail_Inr [OF l] obtain e1 where
    "current_step e < length (df e)"
    "trade e (Close (df e ! current_step e)) (np_clip a (- 1) 1) = Inr (e1, shares_traded l)"
    "e' = e1\<lparr>current_step := current_step e + 1\<rparr>" by blast
  then show "current_step e' = current_step e + 1" "current_step e < length (df e)" by simp_all
qed

lemma run_returning_cursor:
  assumes "\<forall>r\<in>set (fst (run e as)). \<not> isl r"
  shows "current_step (snd (run e as)) = current_step e + length as"
  using assms
proof (induction as arbitrary: e)
  case Nil
  show ?case by simp
next
  case (Cons a as)
  obtain r e1 where st: "step e a = (r, e1)" by (cases "step e a")
  obtain rs e2 where rn: "run e1 as = (rs, e2)" by (cases "run e1 as")
  from Cons.prems st rn have r: "\<not> isl r" and rs: "\<forall>r\<in>set (fst (run e1 as)). \<not> isl r"
    by simp_all
  from r obtain v where "r = Inr v" by (cases r) simp_all
  with st have "current_step e1 = current_step e + 1" by (simp add: step_returns_cursor(1))
  moreover have "current_step (snd (run e1 as)) = current_step e1 + length as"
    using rs by (rule Cons.IH)
  ultimately show ?case using st rn by simp
qed

subsection \<open>The observation\<close>







subsection \<open>The reward\<close>

text \<open>
  C1. Whenever \<open>step\<close> returns, the reward it returns is
  \<open>new_value - prev_value - trade_penalty_factor * traded\<close>, where \<open>prev_value\<close> is
  cash plus holdings at the close of the current bar before the trade, \<open>new_value\<close> is
  cash plus holdings at \<open>next_price\<close> after the trade, and \<open>traded\<close> is the number of
  shares bought or sold by this call: the absolute change of the holdings, 0 without a trade.
\<close>

theorem step_reward_identity:
  assumes "step e a = (Inr (obs, r, d), e')"
  shows "\<exists>l. step_detail e a = (Inr l, e')
    \<and> r = new_total_asset l - prev_total_asset l
          - trade_penalty_factor e * real_of_int (shares_traded l)
    \<and> prev_total_asset l
        = cash e + real_of_int (stock_owned e) * Close (df e ! current_step e)
    \<and> new_total_asset l = cash e' + real_of_int (stock_owned e') * next_price l
    \<and> shares_traded l = \<bar>stock_owned e' - stock_owned e\<bar>"
proof -
  from step_Inr [OF assms] obtain l where
    l: "step_detail e a = (Inr l, e')" and r: "r = reward l" by blast
  from step_detail_Inr [OF l] obtain e1 where
    tr: "trade e (Close (df e ! current_step e)) (np_clip a (- 1) 1) = Inr (e1, shares_traded l)"
    and e': "e' = e1\<lparr>current_step := current_step e + 1\<rparr>"
    and rest: "price l = Close (df e ! current_step e)"
      "prev_total_asset l = cash e + real_of_int (stock_owned e) * price l"
      "new_total_asset l = cash e' + real_of_int (stock_owned e') * next_price l"
      "reward l = new_total_asset l - prev_total_asset l
                  - trade_penalty_factor e * real_of_int (shares_traded l)"
    by blast
  from trade_traded(1) [OF tr] e' have "shares_traded l = \<bar>stock_owned e' - stock_owned e\<bar>"
    by simp
  with l r rest show ?thesis by auto
qed

theorem step_reward_identity_witness:
  "step ex_env (Fin 1) = (Inr (map Fin [99, 101, 97, 100, 98, 96, 0, 100], 999, False), ex_env1)
   \<and> (\<exists>l. step_detail ex_env (Fin 1) = (Inr l, ex_env1)
        \<and> 999 = new_total_asset l - prev_total_asset l
                - trade_penalty_factor ex_env * real_of_int (shares_traded l)
        \<and> prev_total_asset l
            = cash ex_env + real_of_int (stock_owned ex_env) * Close (df ex_env ! current_step ex_env)
        \<and> new_total_asset l = cash ex_env1 + real_of_int (stock_owned ex_env1) * next_price l
        \<and> shares_traded l = \<bar>stock_owned ex_env1 - stock_owned ex_env\<bar>)"
proof -
  have h: "step ex_env (Fin 1) = (Inr (map Fin [99, 101, 97, 100, 98, 96, 0, 100], 999, False), ex_env1)"
    by (simp add: ex_simps ex_env1_def)
  from h step_reward_identity [OF h] show ?thesis by (rule conjI)
qed

subsection \<open>No margin, no shorting\<close>

text \<open>
  C2 fails on the code, and on this model of it. At the positive close \<open>odd_close\<close>
  (\<open>145 * 2\<^sup>-\<^sup>6\<^sup>0\<close>) the exact quotient \<open>10000 / price\<close> has floor 79511827903920481103, but
  \<open>int(self.cash // price)\<close> is the rounded 79511827903920488448: the call \<open>step([1.0])\<close>
  returns, buys that many shares, they cost more than the cash, and cash ends below 0.
  (The cash of the model is the exact difference; the code rounds it, to \<open>-2\<^sup>-\<^sup>3\<^sup>9\<close>.)
\<close>

theorem buy_overdraws_cash:
  "0 < odd_close
   \<and> cash (flat_env odd_close) = 10000
   \<and> \<lfloor>10000 / odd_close\<rfloor> = 79511827903920481103
   \<and> max_buy_of 10000 odd_close = Inr 79511827903920488448
   \<and> \<not> isl (fst (step_detail (flat_env odd_close) (Fin 1)))
   \<and> stock_owned (snd (step_detail (flat_env odd_close) (Fin 1))) = 79511827903920488448
   \<and> cash (snd (step_detail (flat_env odd_close) (Fin 1))) < 0"
proof -
  let ?e = "flat_env odd_close"
  have c: "Close (df ?e ! current_step ?e) = odd_close" "cash ?e = 10000"
    "current_step ?e < length (df ?e)" "n_steps ?e = length (df ?e)"
    by (simp_all add: flat_env_eq flat_bar_def)
  have tr: "trade ?e (Close (df ?e ! current_step ?e)) (np_clip (Fin 1) (- 1) 1)
      = Inr (?e\<lparr>cash := cash ?e - real_of_int 79511827903920488448 * odd_close,
                 stock_owned := stock_owned ?e + 79511827903920488448\<rparr>, 79511827903920488448)"
    by (simp add: trade_def c max_buy_of_odd shares_of_odd min_trade_amount_def)
  from step_detail_returns [OF c(4) c(3) tr] obtain l where
    l: "step_detail ?e (Fin 1)
      = (Inr l, ?e\<lparr>cash := cash ?e - real_of_int 79511827903920488448 * odd_close,
                 stock_owned := stock_owned ?e + 79511827903920488448,
                 current_step := current_step ?e + 1\<rparr>)" by auto
  have "cash (snd (step_detail ?e (Fin 1))) < 0"
    unfolding l by (simp add: flat_env_eq odd_close_def)
  moreover have "stock_owned (snd (step_detail ?e (Fin 1))) = 79511827903920488448"
    unfolding l by (simp add: flat_env_eq)
  moreover have "\<not> isl (fst (step_detail ?e (Fin 1)))" unfolding l by simp
  moreover have "0 < odd_close" by (simp add: odd_close_def)
  ultimately show ?thesis using c(2) floor_odd_quotient max_buy_of_odd by simp
qed

subsection \<open>Termination of an episode\<close>

text \<open>
  C3, for calls that return. Take a frame of \<open>N\<close> bars and lookback \<open>L\<close> with
  \<open>N \<ge> L + 2\<close> (\<open>n_steps\<close> the length of the frame, as the constructor sets it). If after
  \<open>reset\<close> the first \<open>k\<close> calls of \<open>step\<close> have all returned and call number
  \<open>k + 1 \<le> N - L - 1\<close> returns, then it leaves the cursor at \<open>L + k + 1\<close>, and its flag
  \<open>done\<close> is true exactly when that cursor is \<open>N - 1\<close>, which is exactly when it is call
  number \<open>N - L - 1\<close>. So the number of returning calls until \<open>done\<close> is \<open>N - L - 1\<close>.
\<close>

theorem done_exactly_at_last_bar:
  assumes wf: "n_steps e = length (df e)"
    and len: "lookback e + 2 \<le> length (df e)"
    and ok: "\<forall>r\<in>set (fst (run (snd (reset e)) as)). \<not> isl r"
    and k: "length as + 1 \<le> length (df e) - lookback e - 1"
    and st: "step (snd (run (snd (reset e)) as)) a = (Inr (obs, r, d), e')"
  shows "current_step e' = lookback e + length as + 1
    \<and> d = (current_step e' = length (df e) - 1)
    \<and> d = (length as + 1 = length (df e) - lookback e - 1)"
proof -
  let ?e0 = "snd (reset e)"
  let ?ek = "snd (run ?e0 as)"
  have fr0: "df ?e0 = df e" "n_steps ?e0 = n_steps e" "current_step ?e0 = lookback e"
    by (simp_all add: snd_reset)
  have ck: "current_step ?ek = lookback e + length as"
    using run_returning_cursor [OF ok] by (simp add: fr0)
  have frk: "n_steps ?ek = length (df e)"
    by (simp add: run_frame fr0 wf)
  from step_Inr [OF st] obtain l where l: "step_detail ?ek a = (Inr l, e')" and dl: "d = is_done l"
    by blast
  from step_detail_Inr [OF l] have
    dd: "is_done l = (int (current_step ?ek + 1) \<ge> int (n_steps ?ek) - 1)" by blast
  have c': "current_step e' = current_step ?ek + 1" using step_returns_cursor(1) [OF st] .
  have "d = (current_step e' = length (df e) - 1)"
    unfolding dl dd frk c' ck using k len by auto
  moreover have "d = (length as + 1 = length (df e) - lookback e - 1)"
    unfolding dl dd frk ck using k len by auto
  ultimately show ?thesis using c' ck by simp
qed

theorem done_exactly_at_last_bar_witness:
  "n_steps (SimpleTradingEnv ex_df 1) = length (df (SimpleTradingEnv ex_df 1))
   \<and> lookback (SimpleTradingEnv ex_df 1) + 2 \<le> length (df (SimpleTradingEnv ex_df 1))
   \<and> fst (run (snd (reset (SimpleTradingEnv ex_df 1))) [Fin 1])
       = [Inr (map Fin [99, 101, 97, 100, 98, 96, 0, 100], 999, False)]
   \<and> length [Fin 1] + 1
       \<le> length (df (SimpleTradingEnv ex_df 1)) - lookback (SimpleTradingEnv ex_df 1) - 1
   \<and> step (snd (run (snd (reset (SimpleTradingEnv ex_df 1))) [Fin 1])) (Fin (- 1))
       = (Inr (map Fin [109, 111, 107, 110, 108, 106, 11000, 0], - 1, True), ex_env2)
   \<and> current_step ex_env2 = lookback (SimpleTradingEnv ex_df 1) + length [Fin 1] + 1
   \<and> True = (current_step ex_env2 = length (df (SimpleTradingEnv ex_df 1)) - 1)
   \<and> True = (length [Fin 1] + 1
              = length (df (SimpleTradingEnv ex_df 1)) - lookback (SimpleTradingEnv ex_df 1) - 1)"
proof -
  let ?E = "SimpleTradingEnv ex_df 1"
  have h1: "n_steps ?E = length (df ?E)" by (simp add: SimpleTradingEnv_def)
  have h2: "lookback ?E + 2 \<le> length (df ?E)" by (simp add: SimpleTradingEnv_def ex_df_def)
  have r: "run (snd (reset ?E)) [Fin 1]
      = ([Inr (map Fin [99, 101, 97, 100, 98, 96, 0, 100], 999, False)], ex_env1)"
    by (simp add: ex_simps ex_env1_def)
  have h3: "\<forall>r\<in>set (fst (run (snd (reset ?E)) [Fin 1])). \<not> isl r" unfolding r by simp
  have h4: "length [Fin 1] + 1 \<le> length (df ?E) - lookback ?E - 1"
    by (simp add: SimpleTradingEnv_def ex_df_def)
  have h5: "step (snd (run (snd (reset ?E)) [Fin 1])) (Fin (- 1))
       = (Inr (map Fin [109, 111, 107, 110, 108, 106, 11000, 0], - 1, True), ex_env2)"
    unfolding r by (simp add: ex_simps ex_env1_def ex_env2_def)
  from done_exactly_at_last_bar [OF h1 h2 h3 h4 h5] h1 h2 h4 h5 r show ?thesis by simp
qed

text \<open>
  C3, counting every call, fails: at the positive close \<open>tiny_close\<close> the first call, a
  purchase, raises OverflowError and leaves the cursor where it is; with \<open>N - L - 1 = 2\<close>
  it is the third call that returns \<open>done = True\<close>.
\<close>

theorem raising_call_counterexample:
  "0 < tiny_close
   \<and> length (df (flat_env tiny_close)) - lookback (flat_env tiny_close) - 1 = 2
   \<and> run (flat_env tiny_close) [Fin 1, NaN, NaN]
       = ([Inl OverflowError,
           Inr (map Fin [0, 0, 0, 0, 0, 0, 10000, 0], 0, False),
           Inr (map Fin [0, 0, 0, 0, 0, 0, 10000, 0], 0, True)],
          (flat_env tiny_close)\<lparr>current_step := 3\<rparr>)"
proof -
  have "0 < tiny_close" by (simp add: tiny_close_def)
  moreover have "length (df (flat_env tiny_close)) - lookback (flat_env tiny_close) - 1 = 2"
    by (simp add: flat_env_eq)
  moreover have "run (flat_env tiny_close) [Fin 1, NaN, NaN]
       = ([Inl OverflowError,
           Inr (map Fin [0, 0, 0, 0, 0, 0, 10000, 0], 0, False),
           Inr (map Fin [0, 0, 0, 0, 0, 0, 10000, 0], 0, True)],
          (flat_env tiny_close)\<lparr>current_step := 3\<rparr>)"
    by (simp add: flat_env_eq flat_bar_def step_def step_detail_def iloc_def trade_def
        max_buy_of_tiny float32_tiny get_obs_def iloc_slice_def slice_bound_def Let_def)
  ultimately show ?thesis by simp
qed

subsection \<open>The price of the new valuation\<close>

text \<open>
  C4. In a call of \<open>step\<close> that returns with \<open>done\<close> true, \<open>next_price\<close>, the price in
  \<open>new_total_asset\<close>, is the close at the cursor before the advance, the price of
  \<open>prev_total_asset\<close> and of the trade; no later bar is read. In a call that returns with
  \<open>done\<close> false it is the close at the advanced cursor, which is inside the frame.
\<close>

theorem next_price_fallback:
  assumes "step_detail e a = (Inr l, e')"
  shows "price l = Close (df e ! current_step e)
    \<and> current_step e' = current_step e + 1
    \<and> is_done l = (int (current_step e') \<ge> int (n_steps e) - 1)
    \<and> (is_done l \<longrightarrow> next_price l = Close (df e ! current_step e))
    \<and> (\<not> is_done l \<longrightarrow>
          current_step e' < length (df e) \<and> next_price l = Close (df e ! current_step e'))
    \<and> new_total_asset l = cash e' + real_of_int (stock_owned e') * next_price l"
proof -
  from step_detail_Inr [OF assms] obtain e1 where
    tr: "trade e (Close (df e ! current_step e)) (np_clip a (- 1) 1) = Inr (e1, shares_traded l)"
    and e': "e' = e1\<lparr>current_step := current_step e + 1\<rparr>"
    and rest: "price l = Close (df e ! current_step e)"
      "is_done l = (int (current_step e + 1) \<ge> int (n_steps e) - 1)"
      "\<not> is_done l \<longrightarrow> current_step e + 1 < length (df e)"
      "next_price l = (if is_done l then price l else Close (df e ! (current_step e + 1)))"
      "new_total_asset l = cash e' + real_of_int (stock_owned e') * next_price l"
    by blast
  from e' have c: "current_step e' = current_step e + 1" by simp
  show ?thesis using rest unfolding c by simp
qed

theorem next_price_fallback_witness:
  "step_detail ex_env1 (Fin (- 1)) = (Inr ex_locals2, ex_env2)
   \<and> price ex_locals2 = Close (df ex_env1 ! current_step ex_env1)
   \<and> current_step ex_env2 = current_step ex_env1 + 1
   \<and> is_done ex_locals2
   \<and> int (current_step ex_env2) \<ge> int (n_steps ex_env1) - 1
   \<and> next_price ex_locals2 = Close (df ex_env1 ! current_step ex_env1)
   \<and> new_total_asset ex_locals2
       = cash ex_env2 + real_of_int (stock_owned ex_env2) * next_price ex_locals2"
proof -
  have h: "step_detail ex_env1 (Fin (- 1)) = (Inr ex_locals2, ex_env2)"
    by (simp add: ex_simps ex_env1_def ex_env2_def ex_locals2_def)
  have d: "is_done ex_locals2" by (simp add: ex_locals2_def)
  from h d next_price_fallback [OF h] show ?thesis by simp
qed

subsection \<open>Layout of the observation\<close>




subsection \<open>reset\<close>



subsection \<open>Trades and the threshold\<close>

text \<open>
  C7, as the code has it. The threshold is the local constant \<open>min_trade_amount = 1\<close> of
  \<open>step\<close>; the environment has no setting for it. The size of a trade is what the doubles
  give: \<open>int(action * max_buy)\<close> with \<open>max_buy = int(cash // price)\<close> for a positive
  action, \<open>int(abs(action) * stock_owned)\<close> for a negative one, 0 for the action 0. In a
  call of \<open>step\<close> that returns with a clipped action that is a number: if the size is below
  the threshold, cash and shares are unchanged and \<open>shares_traded = 0\<close>; if it is at or above
  the threshold, the trade is made, \<open>shares_traded\<close> is the size and the shares owned change
  by it.
\<close>

theorem trade_iff_threshold:
  assumes st: "step_detail e a = (Inr l, e')"
    and act: "action l = Fin x"
    and size: "(0 < x \<and> py_floordiv (cash e) (price l) = Inr q \<and> py_int_of q = Inr m
                \<and> py_int_of (pf_mul (Fin x) (float_of_int m)) = Inr n)
             \<or> (x < 0 \<and> py_int_of (pf_mul (Fin \<bar>x\<bar>) (float_of_int (stock_owned e))) = Inr n)
             \<or> (x = 0 \<and> n = 0)"
  shows "(n < min_trade_amount \<longrightarrow>
            cash e' = cash e \<and> stock_owned e' = stock_owned e \<and> shares_traded l = 0)
    \<and> (min_trade_amount \<le> n \<longrightarrow>
            shares_traded l = n
            \<and> stock_owned e' = stock_owned e + (if 0 < x then n else - n))
    \<and> min_trade_amount = 1"
proof -
  from step_detail_Inr [OF st] obtain e1 where
    tr: "trade e (Close (df e ! current_step e)) (np_clip a (- 1) 1) = Inr (e1, shares_traded l)"
    and e': "e' = e1\<lparr>current_step := current_step e + 1\<rparr>"
    and p: "price l = Close (df e ! current_step e)"
    and a: "action l = np_clip a (- 1) 1" by blast
  from tr a act p have tr': "trade e (price l) (Fin x) = Inr (e1, shares_traded l)" by simp
  from size have "(n < min_trade_amount \<longrightarrow> e1 = e \<and> shares_traded l = 0)
    \<and> (min_trade_amount \<le> n \<longrightarrow>
          shares_traded l = n \<and> stock_owned e1 = stock_owned e + (if 0 < x then n else - n))"
  proof (elim disjE conjE)
    assume "0 < x" "py_floordiv (cash e) (price l) = Inr q" "py_int_of q = Inr m"
      "py_int_of (pf_mul (Fin x) (float_of_int m)) = Inr n"
    with tr' show ?thesis
      by (auto simp: trade_def max_buy_of_def shares_of_def split: if_splits)
  next
    assume "x < 0" "py_int_of (pf_mul (Fin \<bar>x\<bar>) (float_of_int (stock_owned e))) = Inr n"
    with tr' show ?thesis by (auto simp: trade_def shares_of_def split: if_splits)
  next
    assume "x = 0" "n = 0"
    with tr' show ?thesis by (simp add: trade_def min_trade_amount_def)
  qed
  with e' show ?thesis by (simp add: min_trade_amount_def)
qed

theorem trade_iff_threshold_witness:
  "step_detail ex_env (Fin 1) = (Inr ex_locals1, ex_env1)
   \<and> action ex_locals1 = Fin 1
   \<and> py_floordiv (cash ex_env) (price ex_locals1) = Inr (Fin 100)
   \<and> py_int_of (Fin 100) = Inr 100
   \<and> py_int_of (pf_mul (Fin 1) (float_of_int 100)) = Inr 100
   \<and> min_trade_amount \<le> 100
   \<and> shares_traded ex_locals1 = 100
   \<and> stock_owned ex_env1 = stock_owned ex_env + 100"
proof -
  have h1: "step_detail ex_env (Fin 1) = (Inr ex_locals1, ex_env1)"
    by (simp add: ex_simps ex_env1_def ex_locals1_def)
  have h2: "action ex_locals1 = Fin 1" by (simp add: ex_locals1_def)
  have q: "py_floordiv (cash ex_env) (price ex_locals1) = Inr (Fin 100)"
    by (simp add: ex_simps ex_locals1_def)
  have m: "py_int_of (Fin 100) = Inr 100" by (simp add: py_int_def)
  have n: "py_int_of (pf_mul (Fin 1) (float_of_int 100)) = Inr 100" by (simp add: py_int_def)
  have h3: "(0 < (1::real) \<and> py_floordiv (cash ex_env) (price ex_locals1) = Inr (Fin 100)
              \<and> py_int_of (Fin 100) = Inr 100
              \<and> py_int_of (pf_mul (Fin 1) (float_of_int 100)) = Inr 100)
             \<or> ((1::real) < 0
                 \<and> py_int_of (pf_mul (Fin \<bar>1\<bar>) (float_of_int (stock_owned ex_env))) = Inr 100)
             \<or> ((1::real) = 0 \<and> (100::int) = 0)"
    using q m n by simp
  have t: "min_trade_amount \<le> 100" by (simp add: min_trade_amount_def)
  from trade_iff_threshold [OF h1 h2 h3] t
  have "shares_traded ex_locals1 = 100 \<and> stock_owned ex_env1 = stock_owned ex_env + 100"
    by simp
  with h1 h2 q m n t show ?thesis by (intro conjI) simp_all
qed

theorem rounded_size_counterexample:
  "\<lfloor>third_double * real_of_int \<lfloor>cash (flat_env 3000) / 3000\<rfloor>\<rfloor> = 0
   \<and> step_detail (flat_env 3000) (Fin third_double)
       = (Inr \<lparr> price = 3000, prev_total_asset = 10000, action = Fin third_double,
                shares_traded = 1, is_done = False,
                next_obs = map Fin [3000, 3000, 3000, 3000, 3000, 3000, 7000, 1],
                next_price = 3000, new_total_asset = 10000, reward = - (1 / 100) \<rparr>,
          (flat_env 3000)\<lparr>current_step := 2, cash := 7000, stock_owned := 1\<rparr>)
   \<and> min_trade_amount \<noteq> 5
   \<and> \<lfloor>1 * real_of_int \<lfloor>cash (flat_env 2500) / 2500\<rfloor>\<rfloor> = 4
   \<and> step_detail (flat_env 2500) (Fin 1)
       = (Inr \<lparr> price = 2500, prev_total_asset = 10000, action = Fin 1,
                shares_traded = 4, is_done = False,
                next_obs = map Fin [2500, 2500, 2500, 2500, 2500, 2500, 0, 4],
                next_price = 2500, new_total_asset = 10000, reward = - (1 / 25) \<rparr>,
          (flat_env 2500)\<lparr>current_step := 2, cash := 0, stock_owned := 4\<rparr>)"
proof -
  have a: "\<lfloor>third_double * real_of_int \<lfloor>cash (flat_env 3000) / 3000\<rfloor>\<rfloor> = 0"
    by (simp add: flat_env_eq third_double_def)
  have m: "max_buy_of 10000 3000 = Inr 3" by (simp add: size_simps)
  have b: "step_detail (flat_env 3000) (Fin third_double)
       = (Inr \<lparr> price = 3000, prev_total_asset = 10000, action = Fin third_double,
                shares_traded = 1, is_done = False,
                next_obs = map Fin [3000, 3000, 3000, 3000, 3000, 3000, 7000, 1],
                next_price = 3000, new_total_asset = 10000, reward = - (1 / 100) \<rparr>,
          (flat_env 3000)\<lparr>current_step := 2, cash := 7000, stock_owned := 1\<rparr>)"
    by (simp add: flat_env_eq flat_bar_def step_detail_def iloc_def trade_def m shares_of_third
        min_trade_amount_def get_obs_def iloc_slice_def slice_bound_def Let_def)
  have c: "min_trade_amount \<noteq> 5" by (simp add: min_trade_amount_def)
  have d: "\<lfloor>1 * real_of_int \<lfloor>cash (flat_env 2500) / 2500\<rfloor>\<rfloor> = 4"
    by (simp add: flat_env_eq)
  have e: "step_detail (flat_env 2500) (Fin 1)
       = (Inr \<lparr> price = 2500, prev_total_asset = 10000, action = Fin 1,
                shares_traded = 4, is_done = False,
                next_obs = map Fin [2500, 2500, 2500, 2500, 2500, 2500, 0, 4],
                next_price = 2500, new_total_asset = 10000, reward = - (1 / 25) \<rparr>,
          (flat_env 2500)\<lparr>current_step := 2, cash := 0, stock_owned := 4\<rparr>)"
    by (simp add: flat_env_eq flat_bar_def step_detail_def iloc_def trade_def size_simps
        min_trade_amount_def get_obs_def iloc_slice_def slice_bound_def Let_def)
  from a b c d e show ?thesis by (intro conjI)
qed

subsection \<open>Calls after the end of the episode\<close>




subsection \<open>Actions that are not finite\<close>

text \<open>
  C9, as the code has it. \<open>step\<close> checks no action. The action enters the call only through
  \<open>np.clip\<close>: a call with the action \<open>a\<close> is, result and state, the call with the clipped
  action, which is \<open>clamp(a, -1, 1)\<close> for a finite action, 1 for plus infinity, -1 for
  minus infinity and NaN for NaN, on which the trade does nothing; in every call that
  returns, the action of the trade is that clipped value.
\<close>

theorem step_uses_clipped_action:
  "step_detail e a = step_detail e (np_clip a (- 1) 1)
   \<and> np_clip a (- 1) 1
       = (case a of Fin x \<Rightarrow> Fin (max (- 1) (min 1 x)) | PInf \<Rightarrow> Fin 1
                  | NInf \<Rightarrow> Fin (- 1) | NaN \<Rightarrow> NaN)
   \<and> trade e p NaN = Inr (e, 0)
   \<and> (\<forall>l e'. step_detail e a = (Inr l, e') \<longrightarrow>
          action l = np_clip a (- 1) 1
          \<and> (\<exists>e1. trade e (price l) (action l) = Inr (e1, shares_traded l)
                  \<and> e' = e1\<lparr>current_step := current_step e + 1\<rparr>))"
proof (intro conjI allI impI)
  show "step_detail e a = step_detail e (np_clip a (- 1) 1)"
    unfolding step_detail_def np_clip_idem ..
  show "np_clip a (- 1) 1
       = (case a of Fin x \<Rightarrow> Fin (max (- 1) (min 1 x)) | PInf \<Rightarrow> Fin 1
                  | NInf \<Rightarrow> Fin (- 1) | NaN \<Rightarrow> NaN)"
    by (cases a) auto
  show "trade e p NaN = Inr (e, 0)" by simp
next
  fix l e'
  assume l: "step_detail e a = (Inr l, e')"
  from step_detail_Inr [OF l] obtain e1 where
    "trade e (Close (df e ! current_step e)) (np_clip a (- 1) 1) = Inr (e1, shares_traded l)"
    "e' = e1\<lparr>current_step := current_step e + 1\<rparr>"
    "price l = Close (df e ! current_step e)"
    "action l = np_clip a (- 1) 1" by blast
  then show "action l = np_clip a (- 1) 1" 
    and "\<exists>e1. trade e (price l) (action l) = Inr (e1, shares_traded l)
                  \<and> e' = e1\<lparr>current_step := current_step e + 1\<rparr>" by auto
qed

theorem step_uses_clipped_action_witness:
  "step_detail ex_env (Fin 3) = (Inr ex_locals1, ex_env1)
   \<and> step_detail ex_env (Fin 3) = step_detail ex_env (np_clip (Fin 3) (- 1) 1)
   \<and> np_clip (Fin 3) (- 1) 1 = Fin (max (- 1) (min 1 3))
   \<and> action ex_locals1 = np_clip (Fin 3) (- 1) 1"
proof -
  have h: "step_detail ex_env (Fin 3) = (Inr ex_locals1, ex_env1)"
    by (simp add: ex_simps ex_env1_def ex_locals1_def)
  note t = step_uses_clipped_action [of ex_env "Fin 3" 0]
  from t have a: "step_detail ex_env (Fin 3) = step_detail ex_env (np_clip (Fin 3) (- 1) 1)"
    by (rule conjunct1)
  from t have b: "np_clip (Fin 3) (- 1) 1 = Fin (max (- 1) (min 1 3))" by simp
  from t h have c: "action ex_locals1 = np_clip (Fin 3) (- 1) 1" by blast
  from h a b c show ?thesis by (intro conjI)
qed

text \<open>
  C9, as the specification words it, fails: \<open>step\<close> returns on NaN (a hold), on plus infinity
  (the buy of action 1) and on minus infinity (the sell of action -1).
\<close>

theorem non_finite_action_counterexample:
  "step ex_env NaN
     = (Inr (map Fin [99, 101, 97, 100, 98, 96, 10000, 0], 0, False), ex_env\<lparr>current_step := 2\<rparr>)
   \<and> step ex_env PInf = (Inr (map Fin [99, 101, 97, 100, 98, 96, 0, 100], 999, False), ex_env1)
   \<and> step ex_env1 NInf
       = (Inr (map Fin [109, 111, 107, 110, 108, 106, 11000, 0], - 1, True), ex_env2)"
  by (simp add: ex_simps ex_env1_def ex_env2_def)

subsection \<open>The action NaN\<close>




end
